theory Spec2Isabelle
  imports Main "HOL-Library.Word" "HOL-Library.Code_Target_Numeral"
begin

unbundle bit_operations_syntax

section \<open>Machine types of Segment.h\<close>

type_synonym u8 = "8 word"
type_synonym u32 = "32 word"

text \<open>
  \<^verbatim>\<open>LogEntryType\<close> is an enumeration declared in LogEntryTypes.h; here it is the
  unsigned 32-bit integer that carries the enumerator's ordinal, which is what
  \<^verbatim>\<open>type & ~0x3f\<close> and \<^verbatim>\<open>static_cast<LogEntryType>\<close> operate on.
\<close>

type_synonym LogEntryType = "32 word"

text \<open>
  An \<^verbatim>\<open>assert\<close> that does not hold, and an operation the language leaves undefined
  (a vector index past the end, a shift by a negative or too large amount), are
  outcomes of their own.
\<close>

datatype fault = AssertionFailure | UndefinedBehaviour

section \<open>DEFAULT\_SEGMENT\_SIZE\<close>

text \<open>
  \<^verbatim>\<open>#ifdef VALGRIND  enum { DEFAULT_SEGMENT_SIZE = 1 * 1024 * 1024 };\<close>
  \<^verbatim>\<open>#else            enum { DEFAULT_SEGMENT_SIZE = 8 * 1024 * 1024 };\<close>
  The preprocessor symbol is the argument.
\<close>

definition DEFAULT_SEGMENT_SIZE :: "bool \<Rightarrow> nat" where
  "DEFAULT_SEGMENT_SIZE VALGRIND =
     (if VALGRIND then 1 * 1024 * 1024 else 8 * 1024 * 1024)"

section \<open>Segment::EntryHeader\<close>

record EntryHeader =
  lengthBytesAndType :: u8

text \<open>
  Modelled from the spec: \<^verbatim>\<open>downCast\<close> is declared in Common.h, which is not among
  the sources. It is the checked narrowing conversion: the value converted to the
  smaller type, and an assertion failure when converting back does not give the
  value again (the value does not fit).
\<close>

definition downCast_u8 :: "int \<Rightarrow> fault + u8" where
  "downCast_u8 large =
     (let small = (word_of_int large :: u8)
      in if uint small = large then Inr small else Inl AssertionFailure)"

text \<open>
  \<^verbatim>\<open>EntryHeader(LogEntryType type, uint32_t length)\<close>: the member initialiser
  narrows the type, the assertion rejects a type that reaches into the upper two
  bits, and the chain of comparisons sets those bits from the length.
\<close>

definition EntryHeader_ctor :: "LogEntryType \<Rightarrow> u32 \<Rightarrow> fault + EntryHeader" where
  "EntryHeader_ctor type len =
     (case downCast_u8 (uint type) of
        Inl f \<Rightarrow> Inl f
      | Inr b \<Rightarrow>
          if type AND NOT 0x3f \<noteq> 0 then Inl AssertionFailure
          else Inr \<lparr>lengthBytesAndType =
                 (if len < 0x00000100 then b OR push_bit 6 0
                  else if len < 0x00010000 then b OR push_bit 6 1
                  else if len < 0x01000000 then b OR push_bit 6 2
                  else b OR push_bit 6 3)\<rparr>)"

text \<open>
  \<^verbatim>\<open>getType()\<close>. \<^verbatim>\<open>TOTAL_LOG_ENTRY_TYPES\<close> is declared in LogEntryTypes.h, which
  is not among the sources: it is the first argument.
\<close>

definition getType :: "LogEntryType \<Rightarrow> EntryHeader \<Rightarrow> fault + LogEntryType" where
  "getType TOTAL_LOG_ENTRY_TYPES h =
     (if ucast (lengthBytesAndType h AND 0x3f) < TOTAL_LOG_ENTRY_TYPES
      then Inr (ucast (lengthBytesAndType h AND 0x3f))
      else Inl AssertionFailure)"

text \<open>
  \<^verbatim>\<open>getLengthBytes()\<close>: the byte is promoted to \<^verbatim>\<open>int\<close> before the shift and the
  addition, and the sum is narrowed again.
\<close>

definition getLengthBytes :: "EntryHeader \<Rightarrow> fault + u8" where
  "getLengthBytes h = downCast_u8 (drop_bit 6 (uint (lengthBytesAndType h)) + 1)"

text \<open>\<^verbatim>\<open>operator==\<close>\<close>

definition EntryHeader_eq :: "EntryHeader \<Rightarrow> EntryHeader \<Rightarrow> bool" where
  "EntryHeader_eq this other \<longleftrightarrow> lengthBytesAndType other = lengthBytesAndType this"

text \<open>
  The width the specification asks for: \<open>k\<close> is the smallest element of
  \<open>{1, 2, 3, 4}\<close> with \<open>L < 256 ^ k\<close>.
\<close>

definition is_minimal_width :: "u32 \<Rightarrow> nat \<Rightarrow> bool" where
  "is_minimal_width L k \<longleftrightarrow>
     k \<in> {1, 2, 3, 4} \<and> unat L < 256 ^ k \<and>
     (\<forall>j \<in> {1, 2, 3, 4}. unat L < 256 ^ j \<longrightarrow> k \<le> j)"

text \<open>The number the constructor shifts into bits 6 and 7, read off its comparisons.\<close>

definition widthCode :: "u32 \<Rightarrow> nat" where
  "widthCode L =
     (if L < 0x100 then 0 else if L < 0x10000 then 1 else if L < 0x1000000 then 2 else 3)"

section \<open>Segment\<close>

text \<open>
  A pointer is the address it holds; \<^verbatim>\<open>NULL\<close> is address 0. The fields are those of
  the class, in its order; \<open>memory\<close> is the store the block pointers point into.
\<close>

type_synonym addr = nat

definition NULL :: addr where
  "NULL = 0"

record Segment =
  segletSize :: u32
  segletSizeShift :: int
  seglets :: "addr list"
  segletBlocks :: "addr list"
  closed :: bool
  mustFreeBlocks :: bool
  head :: u32
  checksum :: u32
  entryCounts :: "u32 list"
  entryLengths :: "u32 list"
  memory :: "addr \<Rightarrow> u8"

text \<open>
  \<^verbatim>\<open>segletSize * segletBlocks.size()\<close>: a \<^verbatim>\<open>uint32_t\<close> times a \<^verbatim>\<open>size_t\<close>, computed in
  \<^verbatim>\<open>size_t\<close>, which has 64 bits on the x86-64 target of this code base.
\<close>

definition capacity_size_t :: "Segment \<Rightarrow> nat" where
  "capacity_size_t s = (unat (segletSize s) * length (segletBlocks s)) mod 2 ^ 64"

text \<open>
  Lines 309 to 319 of \<^verbatim>\<open>peek\<close>: the pair \<^verbatim>\<open>(segletOffset, segletIndex)\<close>. A shift of a
  32-bit value by a negative amount or by 32 or more is undefined.
\<close>

definition peekLocate :: "Segment \<Rightarrow> u32 \<Rightarrow> fault + (u32 \<times> u32)" where
  "peekLocate s offset =
     (if segletSizeShift s \<noteq> 0 then
        (if segletSizeShift s < 0 \<or> 32 \<le> segletSizeShift s then Inl UndefinedBehaviour
         else Inr (offset AND (segletSize s - 1), drop_bit (nat (segletSizeShift s)) offset))
      else Inr (offset, 0))"

text \<open>
  \<^verbatim>\<open>peek(offset, outAddress)\<close>. The third argument is what \<^verbatim>\<open>*outAddress\<close> holds before
  the call; the result is the returned length and what \<^verbatim>\<open>*outAddress\<close> holds after it.
\<close>

definition peek :: "Segment \<Rightarrow> u32 \<Rightarrow> addr \<Rightarrow> fault + (u32 \<times> addr)" where
  "peek s offset outAddress =
     (if capacity_size_t s \<le> unat offset then Inr (0, outAddress)
      else
        case peekLocate s offset of
          Inl f \<Rightarrow> Inl f
        | Inr (segletOffset, segletIndex) \<Rightarrow>
            if length (segletBlocks s) \<le> unat segletIndex then Inl UndefinedBehaviour
            else
              let segletPtr = segletBlocks s ! unat segletIndex
              in if segletPtr = NULL then Inl AssertionFailure
                 else Inr (segletSize s - segletOffset, segletPtr + unat segletOffset))"

subsection \<open>What the specification says about the layout\<close>

text \<open>The decomposition by division and modulo, as \<^verbatim>\<open>(segletOffset, segletIndex)\<close>.\<close>

definition locateByDivision :: "Segment \<Rightarrow> u32 \<Rightarrow> u32 \<times> u32" where
  "locateByDivision s offset = (offset mod segletSize s, offset div segletSize s)"

text \<open>\<open>n = 2 ^ k\<close> for a shift count \<open>k\<close> held in an \<^verbatim>\<open>int\<close>.\<close>

definition is_log2 :: "int \<Rightarrow> u32 \<Rightarrow> bool" where
  "is_log2 k n \<longleftrightarrow> 0 \<le> k \<and> unat n = 2 ^ nat k"

text \<open>
  Modelled from the spec: the constructors, which set \<^verbatim>\<open>segletSizeShift\<close>, are in
  Segment.cc, which is not among the sources. They set it to \<open>log2(segletSize)\<close> when
  the list of seglets has more than one element, and to 0 otherwise; the comment on
  the field says the same: equal to \<open>log2(segletSize)\<close> if the segment consists of
  multiple seglets, otherwise 0.
\<close>

definition segletSizeShift_invariant :: "Segment \<Rightarrow> bool" where
  "segletSizeShift_invariant s \<longleftrightarrow>
     (if 1 < length (segletBlocks s) then is_log2 (segletSizeShift s) (segletSize s)
      else segletSizeShift s = 0)"

text \<open>
  Modelled from the spec: the code that reads and writes the blocks is in Segment.cc,
  which is not among the sources. Logical byte \<open>i\<close> lives at
  \<^verbatim>\<open>segletBlocks[i / segletSize] + (i mod segletSize)\<close>; the comment on \<^verbatim>\<open>segletBlocks\<close>
  says the same of block 0.
\<close>

definition byteAddress :: "Segment \<Rightarrow> nat \<Rightarrow> addr" where
  "byteAddress s i =
     segletBlocks s ! (i div unat (segletSize s)) + i mod unat (segletSize s)"

subsection \<open>close and append\<close>

text \<open>
  Modelled from the spec: \<^verbatim>\<open>close()\<close> is defined in Segment.cc, which is not among
  the sources. It sets \<^verbatim>\<open>closed\<close>.
\<close>

definition close :: "Segment \<Rightarrow> Segment" where
  "close s = s\<lparr>closed := True\<rparr>"

text \<open>
  Modelled from the spec: the width of the length field is chosen in Segment.cc,
  which is not among the sources. It is the smallest \<open>k\<close> among 1, 2, 3, 4 with
  \<open>L < 256 ^ k\<close>.
\<close>

definition lengthFieldBytes :: "u32 \<Rightarrow> nat" where
  "lengthFieldBytes L =
     (if unat L < 256 ^ 1 then 1 else if unat L < 256 ^ 2 then 2
      else if unat L < 256 ^ 3 then 3 else 4)"

text \<open>
  Modelled from the spec: \<^verbatim>\<open>hasSpaceFor\<close> is defined in Segment.cc, which is not among
  the sources. It is true iff \<^verbatim>\<open>head\<close> stays within the capacity when the given
  payloads are appended in sequence, each with one header byte and its length field.
\<close>

definition hasSpaceFor :: "Segment \<Rightarrow> u32 list \<Rightarrow> bool" where
  "hasSpaceFor s lengths \<longleftrightarrow>
     unat (head s) + sum_list (map (\<lambda>L. 1 + lengthFieldBytes L + unat L) lengths)
       \<le> unat (segletSize s) * length (segletBlocks s)"

text \<open>
  Modelled from the spec: the length field is written in Segment.cc, which is not
  among the sources. It holds \<open>L\<close> as \<open>k\<close> little-endian bytes.
\<close>

fun littleEndian :: "nat \<Rightarrow> u32 \<Rightarrow> u8 list" where
  "littleEndian 0 L = []"
| "littleEndian (Suc k) L = ucast L # littleEndian k (drop_bit 8 L)"

text \<open>
  Modelled from the spec: \<^verbatim>\<open>copyIn\<close> is defined in Segment.cc, which is not among the
  sources. The non-contiguous write: while bytes remain, with \<open>i = o / s\<close>,
  \<open>r = o mod s\<close> and \<open>m = min(n, s - r)\<close>, copy \<open>m\<close> bytes to
  \<^verbatim>\<open>segletBlocks[i] + r\<close> and advance. \<open>store\<close> is the copy of one run.
\<close>

fun store :: "(addr \<Rightarrow> u8) \<Rightarrow> addr \<Rightarrow> u8 list \<Rightarrow> (addr \<Rightarrow> u8)" where
  "store mem a [] = mem"
| "store mem a (b # bs) = store (mem(a := b)) (Suc a) bs"

function copyIn :: "Segment \<Rightarrow> (addr \<Rightarrow> u8) \<Rightarrow> nat \<Rightarrow> u8 list \<Rightarrow> (addr \<Rightarrow> u8)" where
  "copyIn s mem offset bytes =
     (if bytes = [] \<or> segletSize s = 0 then mem
      else
        let i = offset div unat (segletSize s);
            r = offset mod unat (segletSize s);
            m = min (length bytes) (unat (segletSize s) - r)
        in copyIn s (store mem (segletBlocks s ! i + r) (take m bytes)) (offset + m) (drop m bytes))"
  by pat_completeness auto
termination
proof (relation "measure (\<lambda>(s, mem, offset, bytes). length bytes)")
  show "wf (measure (\<lambda>(s, mem, offset, bytes). length bytes))"
    by simp
next
  fix s :: Segment and mem :: "addr \<Rightarrow> u8" and offset :: nat and bytes :: "u8 list"
    and i r m :: nat
  assume a: "\<not> (bytes = [] \<or> segletSize s = 0)"
    and r: "r = offset mod unat (segletSize s)"
    and m: "m = min (length bytes) (unat (segletSize s) - r)"
  from a have "0 < unat (segletSize s)"
    by (simp add: unat_gt_0)
  then have "r < unat (segletSize s)"
    unfolding r by simp
  with a m have "0 < m"
    by simp
  with a show "((s, store mem (segletBlocks s ! i + r) (take m bytes), offset + m, drop m bytes),
           (s, mem, offset, bytes)) \<in> measure (\<lambda>(s, mem, offset, bytes). length bytes)"
    by simp
qed

text \<open>
  Modelled from the spec: \<^verbatim>\<open>append\<close> is defined in Segment.cc, and the checksum class
  in Crc32C.h; neither is among the sources. The function that extends the running
  CRC32C by a run of bytes is the first argument. A closed segment, or one without
  space for the entry, fails the append and is left as it was. Otherwise the header
  byte, the length field and the payload are written at \<^verbatim>\<open>head\<close>, the checksum is
  extended over the header byte and the length bytes, the tallies of the type are
  updated, and the result carries the offset of the payload's first byte. A payload
  length beyond 32 bits and a type ordinal of 64 or more are fatal assertions.
\<close>

definition append ::
  "(u32 \<Rightarrow> u8 list \<Rightarrow> u32) \<Rightarrow> Segment \<Rightarrow> LogEntryType \<Rightarrow> u8 list \<Rightarrow>
     fault + (bool \<times> u32 option \<times> Segment)" where
  "append Crc32C_update s type data =
     (if closed s then Inr (False, None, s)
      else if 2 ^ 32 \<le> length data then Inl AssertionFailure
      else
        let len = (of_nat (length data) :: u32)
        in if \<not> hasSpaceFor s [len] then Inr (False, None, s)
           else
             case EntryHeader_ctor type len of
               Inl f \<Rightarrow> Inl f
             | Inr h \<Rightarrow>
                 if length (entryCounts s) \<le> unat type \<or> length (entryLengths s) \<le> unat type
                 then Inl UndefinedBehaviour
                 else
                   let k = lengthFieldBytes len;
                       metadata = lengthBytesAndType h # littleEndian k len
                   in Inr (True, Some (head s + 1 + of_nat k),
                        s\<lparr>memory := copyIn s (memory s) (unat (head s)) (metadata @ data),
                          head := head s + 1 + of_nat k + len,
                          checksum := Crc32C_update (checksum s) metadata,
                          entryCounts :=
                            (entryCounts s)[unat type := entryCounts s ! unat type + 1],
                          entryLengths :=
                            (entryLengths s)[unat type := entryLengths s ! unat type + len]\<rparr>))"

text \<open>
  A caller that issues one append after another, stopping at a fatal assertion; it
  collects what each call returned.
\<close>

fun appendSequence ::
  "(u32 \<Rightarrow> u8 list \<Rightarrow> u32) \<Rightarrow> Segment \<Rightarrow> (LogEntryType \<times> u8 list) list \<Rightarrow>
     fault + ((bool \<times> u32 option) list \<times> Segment)" where
  "appendSequence Crc32C_update s [] = Inr ([], s)"
| "appendSequence Crc32C_update s ((type, data) # rest) =
     (case append Crc32C_update s type data of
        Inl f \<Rightarrow> Inl f
      | Inr (ok, outOffset, s') \<Rightarrow>
          (case appendSequence Crc32C_update s' rest of
             Inl f \<Rightarrow> Inl f
           | Inr (results, s'') \<Rightarrow> Inr ((ok, outOffset) # results, s'')))"

subsection \<open>Three concrete segments\<close>

text \<open>Two blocks of 16 bytes at addresses 4096 and 8192, open and empty.\<close>

definition twoSeglets :: Segment where
  "twoSeglets =
     \<lparr>segletSize = 16, segletSizeShift = 4, seglets = [4096, 8192],
      segletBlocks = [4096, 8192], closed = False, mustFreeBlocks = False, head = 0,
      checksum = 0, entryCounts = replicate 6 0, entryLengths = replicate 6 0,
      memory = (\<lambda>_. 0)\<rparr>"

text \<open>
  Two seglets of one byte each at addresses 4096 and 8192: \<open>log2 1\<close> is 0, so the
  shift is 0 although there are two blocks.
\<close>

definition unitSeglets :: Segment where
  "unitSeglets =
     \<lparr>segletSize = 1, segletSizeShift = 0, seglets = [4096, 8192],
      segletBlocks = [4096, 8192], closed = False, mustFreeBlocks = False, head = 0,
      checksum = 0, entryCounts = replicate 6 0, entryLengths = replicate 6 0,
      memory = (\<lambda>_. 0)\<rparr>"

text \<open>One block of 16 bytes at address 4096, open and empty (scenario S5).\<close>

definition oneBlock :: Segment where
  "oneBlock =
     \<lparr>segletSize = 16, segletSizeShift = 0, seglets = [], segletBlocks = [4096],
      closed = False, mustFreeBlocks = False, head = 0, checksum = 0,
      entryCounts = replicate 6 0, entryLengths = replicate 6 0, memory = (\<lambda>_. 0)\<rparr>"

section \<open>Properties of the entry header\<close>

subsection \<open>The six type bits and the two width bits\<close>

lemma low6_is_mask: "(0x3f :: 'a::len word) = mask 6"
  by (simp add: mask_eq_exp_minus_1)

lemma unat_less_iff_uint: "unat (w :: 'a::len word) < n \<longleftrightarrow> uint w < int n"
  by (simp only: uint_nat of_nat_less_iff)

lemma type_bits_low:
  fixes t :: LogEntryType
  assumes "t AND NOT 0x3f = 0" and b: "bit t n"
  shows "n < 6"
proof -
  have "\<not> bit (t AND NOT (mask 6)) n"
    using assms(1) unfolding low6_is_mask by simp
  with b bit_imp_le_length [OF b] show "n < 6"
    by (simp add: bit_simps)
qed

lemma type_take_bit:
  fixes t :: LogEntryType
  assumes "t AND NOT 0x3f = 0"
  shows "take_bit 6 t = t"
  by (rule bit_word_eqI) (auto simp: bit_simps dest: type_bits_low [OF assms])

lemma type_assert_iff:
  fixes t :: LogEntryType
  shows "t AND NOT 0x3f = 0 \<longleftrightarrow> unat t < 64"
proof
  assume "t AND NOT 0x3f = 0"
  then have "take_bit 6 t = t"
    by (rule type_take_bit)
  then have "t AND mask 6 = t"
    by (simp add: take_bit_eq_mask)
  then have "uint t < 2 ^ 6"
    by (simp only: mask_eq_iff)
  then show "unat t < 64"
    by (simp add: unat_less_iff_uint)
next
  assume "unat t < 64"
  then have "uint t < 2 ^ 6"
    by (simp add: unat_less_iff_uint)
  then have a: "t AND mask 6 = t"
    by (simp only: mask_eq_iff)
  have "(t AND mask 6) AND NOT (mask 6) = 0"
    by (rule bit_word_eqI) (auto simp: bit_simps)
  then have "t AND NOT (mask 6) = 0"
    by (simp only: a)
  then show "t AND NOT 0x3f = 0"
    unfolding low6_is_mask .
qed

lemma ordinal_passes_assert:
  fixes t :: LogEntryType
  assumes "unat t \<le> 63"
  shows "t AND NOT 0x3f = 0"
proof -
  from assms have "unat t < 64"
    by simp
  then show ?thesis
    by (simp only: type_assert_iff)
qed

lemma downCast_type:
  fixes t :: LogEntryType
  assumes "t AND NOT 0x3f = 0"
  shows "downCast_u8 (uint t) = Inr (ucast t)"
proof -
  have "unat t < 64"
    using assms by (simp only: type_assert_iff)
  then have "uint t < 64"
    by (simp add: unat_less_iff_uint)
  moreover have "0 \<le> uint t"
    by simp
  ultimately have "uint t mod 256 = uint t"
    by (simp only: mod_pos_pos_trivial)
  then show ?thesis
    by (simp add: downCast_u8_def unsigned_ucast_eq take_bit_eq_mod)
qed

lemma header_low_bits:
  fixes t :: LogEntryType and c :: u8
  assumes "t AND NOT 0x3f = 0"
  shows "(ucast t OR push_bit 6 c) AND 0x3f = (ucast t :: u8)"
  unfolding low6_is_mask
  by (rule bit_word_eqI) (auto simp: bit_simps dest: type_bits_low [OF assms])

lemma header_high_bits:
  fixes t :: LogEntryType and c :: u8
  assumes "t AND NOT 0x3f = 0"
  shows "drop_bit 6 ((ucast t :: u8) OR push_bit 6 c) = take_bit 2 c"
  by (rule bit_word_eqI) (auto simp: bit_simps dest: type_bits_low [OF assms])

lemma type_through_byte:
  fixes t :: LogEntryType
  assumes "t AND NOT 0x3f = 0"
  shows "ucast (ucast t :: u8) = t"
  by (rule bit_word_eqI) (auto simp: bit_simps dest: type_bits_low [OF assms])

lemma EntryHeader_ctor_byte:
  assumes "t AND NOT 0x3f = 0"
  shows "EntryHeader_ctor t L =
           Inr \<lparr>lengthBytesAndType = ucast t OR push_bit 6 (of_nat (widthCode L))\<rparr>"
  using assms by (simp add: EntryHeader_ctor_def downCast_type widthCode_def)

lemma widthCode_two_bits: "take_bit 2 (of_nat (widthCode L) :: u8) = of_nat (widthCode L)"
  by (simp add: widthCode_def)

lemma widthCode_inj:
  "(of_nat (widthCode L1) :: u8) = of_nat (widthCode L2) \<longleftrightarrow> widthCode L1 = widthCode L2"
  by (simp add: widthCode_def)

lemma minimal_width_iff: "is_minimal_width L k \<longleftrightarrow> k = Suc (widthCode L)"
proof -
  have "unat L < 2 ^ 32"
    using unsigned_less [of L] by simp
  then have "unat L < 4294967296"
    by simp
  then show ?thesis
    by (auto simp: is_minimal_width_def widthCode_def word_less_nat_alt)
qed

subsection \<open>Reading the width back\<close>

lemma uint_u8_shift6_cases:
  fixes b :: u8
  shows "drop_bit 6 (uint b) \<in> {0, 1, 2, 3}"
proof -
  have "uint b < 256"
    using uint_bounded [of b] by simp
  moreover have "0 \<le> uint b"
    by simp
  ultimately have "0 \<le> uint b div 64 \<and> uint b div 64 < 4"
    by presburger
  then show ?thesis
    by (auto simp: drop_bit_eq_div)
qed

lemma getLengthBytes_byte:
  "getLengthBytes \<lparr>lengthBytesAndType = b\<rparr> = Inr (drop_bit 6 b + 1)"
proof -
  define d where "d = drop_bit 6 (uint b)"
  have d: "d \<in> {0, 1, 2, 3}"
    unfolding d_def by (rule uint_u8_shift6_cases)
  have "uint b < 256"
    using uint_bounded [of b] by simp
  moreover have "0 \<le> uint b"
    by simp
  ultimately have "uint b mod 256 = uint b"
    by (simp only: mod_pos_pos_trivial)
  then have "uint (drop_bit 6 b) = d"
    by (simp add: d_def unsigned_drop_bit_eq take_bit_eq_mod)
  then have w: "drop_bit 6 b = word_of_int d"
    by (metis word_of_int_uint)
  have "downCast_u8 (d + 1) = Inr (word_of_int d + 1)"
    using d by (auto simp: downCast_u8_def)
  then show ?thesis
    by (simp add: getLengthBytes_def w flip: d_def)
qed

subsection \<open>The claims about the header\<close>

text \<open>
  C1. For a type that passes the constructor's assertion (ordinal at most 63) and
  every 32-bit payload length \<open>L\<close>, the constructor returns a header whose upper two
  bits hold \<open>k - 1\<close>, where \<open>k\<close> is the smallest of 1, 2, 3, 4 with \<open>L < 256 ^ k\<close>, and
  \<^verbatim>\<open>getLengthBytes()\<close> on that header returns this \<open>k\<close>.
\<close>

theorem EntryHeader_encodes_minimal_width:
  assumes "unat type \<le> 63"
  shows "\<exists>h k. EntryHeader_ctor type L = Inr h \<and> is_minimal_width L k \<and>
           drop_bit 6 (lengthBytesAndType h) = of_nat (k - 1) \<and>
           getLengthBytes h = Inr (of_nat k)"
proof -
  have v: "type AND NOT 0x3f = 0"
    using assms by (rule ordinal_passes_assert)
  have "drop_bit 6 ((ucast type :: u8) OR push_bit 6 (of_nat (widthCode L))) = of_nat (widthCode L)"
    by (simp only: header_high_bits [OF v] widthCode_two_bits)
  then show ?thesis
    by (simp add: EntryHeader_ctor_byte [OF v] minimal_width_iff getLengthBytes_byte)
qed

theorem EntryHeader_encodes_minimal_width_witness:
  "unat (2 :: LogEntryType) \<le> 63 \<and>
   (\<exists>h k. EntryHeader_ctor 2 65536 = Inr h \<and> is_minimal_width 65536 k \<and>
           drop_bit 6 (lengthBytesAndType h) = of_nat (k - 1) \<and>
           getLengthBytes h = Inr (of_nat k))"
  using EntryHeader_encodes_minimal_width [of 2 65536] by simp

text \<open>
  C5, as the code has it. \<^verbatim>\<open>getType()\<close> asserts that the stored ordinal is below
  \<^verbatim>\<open>TOTAL_LOG_ENTRY_TYPES\<close>. For a type with ordinal at most 63 and every payload
  length the constructor returns a header, and \<^verbatim>\<open>getType()\<close> on it returns the type
  when its ordinal is below \<^verbatim>\<open>TOTAL_LOG_ENTRY_TYPES\<close>; otherwise the assertion fails.
\<close>

theorem getType_after_ctor:
  assumes "unat type \<le> 63"
  shows "\<exists>h. EntryHeader_ctor type L = Inr h \<and>
           getType TOTAL_LOG_ENTRY_TYPES h =
             (if type < TOTAL_LOG_ENTRY_TYPES then Inr type else Inl AssertionFailure)"
proof -
  have v: "type AND NOT 0x3f = 0"
    using assms by (rule ordinal_passes_assert)
  show ?thesis
    by (simp add: EntryHeader_ctor_byte [OF v] getType_def header_low_bits [OF v]
        type_through_byte [OF v])
qed

theorem getType_after_ctor_witness:
  "unat (2 :: LogEntryType) \<le> 63 \<and>
   (\<exists>h. EntryHeader_ctor 2 300 = Inr h \<and> getType 6 h = Inr 2)"
  using getType_after_ctor [of 2 300 6] by simp

text \<open>
  C5, as the claim states it, fails where the enumeration has fewer than 64
  members. With six entry types, say, ordinal 63 lies in \<open>0..63\<close>, the constructor
  accepts it, and \<^verbatim>\<open>getType()\<close> stops at its assertion instead of returning it.
\<close>

theorem getType_after_ctor_counterexample:
  "unat (63 :: LogEntryType) \<le> 63 \<and>
   EntryHeader_ctor 63 0 = Inr \<lparr>lengthBytesAndType = 63\<rparr> \<and>
   getType 6 \<lparr>lengthBytesAndType = 63\<rparr> = Inl AssertionFailure"
  by (simp add: EntryHeader_ctor_def downCast_u8_def getType_def)

text \<open>
  C10. \<^verbatim>\<open>operator==\<close> compares the packed byte only: for two types with ordinals
  at most 63 and any two lengths, the constructed headers are equal exactly when
  the types are equal and the lengths need the same minimal number of length bytes.
\<close>

theorem EntryHeader_eq_iff:
  assumes "unat t1 \<le> 63" and "unat t2 \<le> 63"
  shows "\<exists>h1 h2. EntryHeader_ctor t1 L1 = Inr h1 \<and> EntryHeader_ctor t2 L2 = Inr h2 \<and>
           (EntryHeader_eq h1 h2 \<longleftrightarrow>
              t1 = t2 \<and> (\<exists>k. is_minimal_width L1 k \<and> is_minimal_width L2 k))"
proof -
  have v1: "t1 AND NOT 0x3f = 0"
    using assms(1) by (rule ordinal_passes_assert)
  have v2: "t2 AND NOT 0x3f = 0"
    using assms(2) by (rule ordinal_passes_assert)
  define b1 :: u8 where "b1 = ucast t1 OR push_bit 6 (of_nat (widthCode L1))"
  define b2 :: u8 where "b2 = ucast t2 OR push_bit 6 (of_nat (widthCode L2))"
  have t1: "ucast (b1 AND 0x3f) = t1"
    by (simp add: b1_def header_low_bits [OF v1] type_through_byte [OF v1])
  have t2: "ucast (b2 AND 0x3f) = t2"
    by (simp add: b2_def header_low_bits [OF v2] type_through_byte [OF v2])
  have w1: "drop_bit 6 b1 = of_nat (widthCode L1)"
    by (simp only: b1_def header_high_bits [OF v1] widthCode_two_bits)
  have w2: "drop_bit 6 b2 = of_nat (widthCode L2)"
    by (simp only: b2_def header_high_bits [OF v2] widthCode_two_bits)
  have "b1 = b2 \<longleftrightarrow> t1 = t2 \<and> widthCode L1 = widthCode L2"
  proof
    assume "b1 = b2"
    then show "t1 = t2 \<and> widthCode L1 = widthCode L2"
      using t1 t2 w1 w2 widthCode_inj by metis
  next
    assume "t1 = t2 \<and> widthCode L1 = widthCode L2"
    then show "b1 = b2"
      by (simp add: b1_def b2_def)
  qed
  then show ?thesis
    by (auto simp add: EntryHeader_ctor_byte [OF v1] EntryHeader_ctor_byte [OF v2]
        EntryHeader_eq_def minimal_width_iff simp flip: b1_def b2_def)
qed

theorem EntryHeader_eq_iff_witness:
  "unat (2 :: LogEntryType) \<le> 63 \<and> unat (2 :: LogEntryType) \<le> 63 \<and>
   (\<exists>h1 h2. EntryHeader_ctor 2 256 = Inr h1 \<and> EntryHeader_ctor 2 65535 = Inr h2 \<and>
      (EntryHeader_eq h1 h2 \<longleftrightarrow>
         (2 :: LogEntryType) = 2 \<and> (\<exists>k. is_minimal_width 256 k \<and> is_minimal_width 65535 k)))"
  using EntryHeader_eq_iff [of 2 2 256 65535] by simp

text \<open>
  C8. \<^verbatim>\<open>DEFAULT_SEGMENT_SIZE\<close> is 8 MiB (8388608 bytes) in the production build and
  1 MiB (1048576 bytes) when \<^verbatim>\<open>VALGRIND\<close> is defined.
\<close>

theorem DEFAULT_SEGMENT_SIZE_values:
  "DEFAULT_SEGMENT_SIZE False = 8388608 \<and> DEFAULT_SEGMENT_SIZE True = 1048576"
  by (simp add: DEFAULT_SEGMENT_SIZE_def)

text \<open>
  C9. For each of the 256 values of \<^verbatim>\<open>lengthBytesAndType\<close>, the value handed to
  \<^verbatim>\<open>downCast\<close> lies between 1 and 4, the narrowing succeeds, and
  \<^verbatim>\<open>getLengthBytes()\<close> returns 1, 2, 3 or 4.
\<close>

theorem getLengthBytes_total:
  "drop_bit 6 (uint (lengthBytesAndType h)) + 1 \<in> {1, 2, 3, 4} \<and>
   getLengthBytes h \<in> {Inr 1, Inr 2, Inr 3, Inr 4}"
proof -
  have "drop_bit 6 (uint (lengthBytesAndType h)) \<in> {0, 1, 2, 3}"
    by (rule uint_u8_shift6_cases)
  then show ?thesis
    by (auto simp: getLengthBytes_def downCast_u8_def)
qed

section \<open>Properties of peek\<close>

subsection \<open>Shifts and masks against division and modulo\<close>

lemma log2_shift_bound:
  assumes "is_log2 k n"
  shows "nat k < 32"
proof -
  have "unat n < 2 ^ LENGTH(32)"
    by (rule unsigned_less)
  then have "(2::nat) ^ nat k < 2 ^ LENGTH(32)"
    using assms by (simp only: is_log2_def)
  then have "nat k < LENGTH(32)"
    by (simp only: power_strict_increasing_iff semiring_norm)
  then show ?thesis
    by simp
qed

lemma log2_as_word:
  assumes "is_log2 k n"
  shows "n = 2 ^ nat k"
proof -
  have "n = of_nat (unat n)"
    by simp
  also have "\<dots> = of_nat (2 ^ nat k)"
    using assms by (simp only: is_log2_def)
  also have "\<dots> = 2 ^ nat k"
    by simp
  finally show ?thesis .
qed

lemma peekLocate_fast_path:
  assumes "segletSizeShift s \<noteq> 0" and "is_log2 (segletSizeShift s) (segletSize s)"
  shows "peekLocate s offset = Inr (offset mod segletSize s, offset div segletSize s)"
proof -
  define k where "k = nat (segletSizeShift s)"
  have k: "k < 32"
    unfolding k_def using assms(2) by (rule log2_shift_bound)
  have sz: "segletSize s = 2 ^ k"
    unfolding k_def using assms(2) by (rule log2_as_word)
  have nz: "(2 ^ k :: u32) \<noteq> 0"
    using k by simp
  have nonneg: "0 \<le> segletSizeShift s"
    using assms(2) by (simp add: is_log2_def)
  moreover have "segletSizeShift s < 32"
    using k nonneg by (simp add: k_def)
  moreover have "offset AND (2 ^ k - 1) = offset mod 2 ^ k"
    using nz by (simp add: word_mod_2p_is_mask mask_eq_decr_exp word_gt_0)
  moreover have "drop_bit k offset = offset div 2 ^ k"
    by (rule drop_bit_eq_div)
  ultimately show ?thesis
    using assms(1) by (simp add: peekLocate_def sz flip: k_def)
qed

lemma peekLocate_under_invariant:
  assumes "segletSizeShift_invariant s"
    and "unat offset < unat (segletSize s) * length (segletBlocks s)"
    and "2 \<le> unat (segletSize s) \<or> length (segletBlocks s) = 1"
  shows "peekLocate s offset = Inr (offset mod segletSize s, offset div segletSize s)"
proof (cases "1 < length (segletBlocks s)")
  case True
  then have lg: "is_log2 (segletSizeShift s) (segletSize s)"
    using assms(1) by (simp add: segletSizeShift_invariant_def)
  from True assms(3) have big: "2 \<le> unat (segletSize s)"
    by auto
  have "segletSizeShift s \<noteq> 0"
  proof
    assume "segletSizeShift s = 0"
    with lg have "unat (segletSize s) = 1"
      by (simp add: is_log2_def)
    with big show False
      by simp
  qed
  then show ?thesis
    using lg by (rule peekLocate_fast_path)
next
  case False
  then have z: "segletSizeShift s = 0"
    using assms(1) by (simp add: segletSizeShift_invariant_def)
  have "length (segletBlocks s) \<noteq> 0"
    using assms(2) by auto
  with False have "length (segletBlocks s) = 1"
    by linarith
  then have "offset < segletSize s"
    using assms(2) by (simp add: word_less_nat_alt)
  then show ?thesis
    using z by (simp add: peekLocate_def mod_word_less div_word_less)
qed

lemma run_within_seglet:
  fixes sz :: nat
  assumes "j < sz - off mod sz"
  shows "(off + j) div sz = off div sz \<and> (off + j) mod sz = off mod sz + j"
proof -
  have pos: "0 < sz"
    using assms by (cases sz) auto
  have r: "off mod sz + j < sz"
    using assms by simp
  have "off + j = (off div sz) * sz + (off mod sz + j)"
    by simp
  then show ?thesis
    using r
    by (metis div_mult_self3 mod_mult_self3 div_less mod_less add.right_neutral pos
        less_not_refl)
qed

subsection \<open>The claims about peek\<close>

text \<open>
  Where \<^verbatim>\<open>peek\<close> does what its comment says. On a segment with \<^verbatim>\<open>segletSize > 0\<close>
  whose shift is as the constructors set it, whose block pointers are not null and
  whose capacity fits \<^verbatim>\<open>size_t\<close>, and which has a single block or seglets of at least
  two bytes, \<^verbatim>\<open>peek\<close> at an in-range offset returns the run length
  \<open>r = segletSize - (offset mod segletSize)\<close> (with no wrap-around in the subtraction)
  and a pointer \<open>p\<close> such that logical byte \<open>offset + j\<close> lives at \<open>p + j\<close> for every
  \<open>j < r\<close>.
\<close>

lemma peek_in_range_larger_seglets:
  assumes "0 < segletSize s"
    and "unat offset < unat (segletSize s) * length (segletBlocks s)"
    and "segletSizeShift_invariant s"
    and "NULL \<notin> set (segletBlocks s)"
    and "unat (segletSize s) * length (segletBlocks s) < 2 ^ 64"
    and "2 \<le> unat (segletSize s) \<or> length (segletBlocks s) = 1"
  shows "\<exists>r p. peek s offset outAddress = Inr (r, p) \<and>
           r = segletSize s - offset mod segletSize s \<and>
           unat r = unat (segletSize s) - unat offset mod unat (segletSize s) \<and>
           (\<forall>j < unat r. byteAddress s (unat offset + j) = p + j)"
proof -
  define sz where "sz = unat (segletSize s)"
  define off where "off = unat offset"
  define r where "r = segletSize s - offset mod segletSize s"
  define p where "p = segletBlocks s ! (off div sz) + off mod sz"
  have sz_pos: "0 < sz"
    using assms(1) by (simp add: sz_def word_less_nat_alt)
  have cap: "capacity_size_t s = sz * length (segletBlocks s)"
    using assms(5) by (simp add: capacity_size_t_def sz_def)
  have inr: "\<not> capacity_size_t s \<le> unat offset"
    using assms(2) by (simp add: cap sz_def)
  have loc: "peekLocate s offset = Inr (offset mod segletSize s, offset div segletSize s)"
    using assms(3) assms(2) assms(6) by (rule peekLocate_under_invariant)
  have idx: "unat (offset div segletSize s) = off div sz"
    by (simp add: unat_div sz_def off_def)
  have rem: "unat (offset mod segletSize s) = off mod sz"
    by (simp add: unat_mod sz_def off_def)
  have "off < length (segletBlocks s) * sz"
    using assms(2) by (simp add: sz_def off_def mult.commute)
  then have idx_lt: "off div sz < length (segletBlocks s)"
    by (rule less_mult_imp_div_less)
  then have "segletBlocks s ! (off div sz) \<in> set (segletBlocks s)"
    by simp
  with assms(4) have nn: "segletBlocks s ! (off div sz) \<noteq> NULL"
    by metis
  have "offset mod segletSize s < segletSize s"
    using assms(1) by (rule word_mod_less_divisor)
  then have "offset mod segletSize s \<le> segletSize s"
    by simp
  then have ur: "unat r = sz - off mod sz"
    by (simp add: r_def unat_sub rem sz_def)
  have pk: "peek s offset outAddress = Inr (r, p)"
    using inr idx_lt nn by (simp add: peek_def loc idx rem r_def p_def)
  have "byteAddress s (off + j) = p + j" if "j < unat r" for j
  proof -
    from that have "j < sz - off mod sz"
      by (simp only: ur)
    then have "(off + j) div sz = off div sz \<and> (off + j) mod sz = off mod sz + j"
      by (rule run_within_seglet)
    then show ?thesis
      by (simp add: byteAddress_def p_def flip: sz_def)
  qed
  with pk ur show ?thesis
    unfolding r_def sz_def off_def by blast
qed

lemma peek_in_range_larger_seglets_example:
  "\<exists>r p. peek twoSeglets 20 NULL = Inr (r, p) \<and>
      r = segletSize twoSeglets - 20 mod segletSize twoSeglets \<and>
      unat r = unat (segletSize twoSeglets) - unat (20 :: u32) mod unat (segletSize twoSeglets) \<and>
      (\<forall>j < unat r. byteAddress twoSeglets (unat (20 :: u32) + j) = p + j)"
proof -
  have h1: "0 < segletSize twoSeglets"
    by (simp add: twoSeglets_def)
  have h2: "unat (20 :: u32) < unat (segletSize twoSeglets) * length (segletBlocks twoSeglets)"
    by (simp add: twoSeglets_def)
  have h3: "segletSizeShift_invariant twoSeglets"
    by (simp add: twoSeglets_def segletSizeShift_invariant_def is_log2_def)
  have h4: "NULL \<notin> set (segletBlocks twoSeglets)"
    by (simp add: twoSeglets_def NULL_def)
  have h5: "unat (segletSize twoSeglets) * length (segletBlocks twoSeglets) < 2 ^ 64"
    by (simp add: twoSeglets_def)
  have h6: "2 \<le> unat (segletSize twoSeglets) \<or> length (segletBlocks twoSeglets) = 1"
    by (simp add: twoSeglets_def)
  show ?thesis
    by (rule peek_in_range_larger_seglets [OF h1 h2 h3 h4 h5 h6])
qed

text \<open>
  C2. The claim asks, for every in-range offset of a segment with
  \<^verbatim>\<open>segletSize > 0\<close>, for the run length \<open>segletSize - (offset mod segletSize)\<close> and a
  pointer to the byte at that offset. \<^verbatim>\<open>peek\<close> misses it on a segment of two seglets
  of one byte: the shift is \<open>log2 1 = 0\<close> as the constructors set it, offset 1 is in
  range, the block pointers are not null and the capacity fits \<^verbatim>\<open>size_t\<close>; the claim
  asks for run length 1 and address 8192, the start of the second block, where
  logical byte 1 lives. \<^verbatim>\<open>peek\<close> takes the branch for a single block, returns run
  length 0 and the pointer 4097, one past the first block.
\<close>

theorem peek_unit_seglets:
  "0 < segletSize unitSeglets \<and>
   unat (1 :: u32) < unat (segletSize unitSeglets) * length (segletBlocks unitSeglets) \<and>
   segletSizeShift_invariant unitSeglets \<and>
   NULL \<notin> set (segletBlocks unitSeglets) \<and>
   unat (segletSize unitSeglets) * length (segletBlocks unitSeglets) < 2 ^ 64 \<and>
   segletSize unitSeglets - 1 mod segletSize unitSeglets = 1 \<and>
   byteAddress unitSeglets (unat (1 :: u32)) = 8192 \<and>
   peek unitSeglets 1 NULL = Inr (0, 4097)"
  by (simp add: unitSeglets_def segletSizeShift_invariant_def is_log2_def NULL_def
      byteAddress_def peek_def peekLocate_def capacity_size_t_def)

text \<open>
  C4, as the code has it. For every offset at or beyond the capacity, \<^verbatim>\<open>peek\<close> returns
  0 and does not write to \<^verbatim>\<open>*outAddress\<close>: the pointer keeps the value it had.
\<close>

theorem peek_out_of_range:
  assumes "unat (segletSize s) * length (segletBlocks s) \<le> unat offset"
  shows "peek s offset outAddress = Inr (0, outAddress)"
proof -
  have "capacity_size_t s \<le> unat (segletSize s) * length (segletBlocks s)"
    by (simp add: capacity_size_t_def)
  with assms have "capacity_size_t s \<le> unat offset"
    by linarith
  then show ?thesis
    by (simp add: peek_def)
qed

theorem peek_out_of_range_witness:
  "unat (segletSize twoSeglets) * length (segletBlocks twoSeglets) \<le> unat (32 :: u32) \<and>
   peek twoSeglets 32 4242 = Inr (0, 4242)"
proof -
  have h: "unat (segletSize twoSeglets) * length (segletBlocks twoSeglets) \<le> unat (32 :: u32)"
    by (simp add: twoSeglets_def)
  show ?thesis
    using h peek_out_of_range [OF h, of 4242] by simp
qed

text \<open>
  C4, as the claim states it, fails: offset 32 is out of range for two seglets of 16
  bytes, the call returns 0, and a pointer that held address 4242 before the call
  still holds it afterwards; it is not null.
\<close>

theorem peek_out_of_range_counterexample:
  "unat (segletSize twoSeglets) * length (segletBlocks twoSeglets) \<le> unat (32 :: u32) \<and>
   peek twoSeglets 32 4242 = Inr (0, 4242) \<and> (4242 :: addr) \<noteq> NULL"
  by (simp add: peek_def capacity_size_t_def twoSeglets_def NULL_def)

text \<open>
  C6. When \<^verbatim>\<open>segletSizeShift\<close> is not 0 and \<^verbatim>\<open>segletSize = 2 ^ segletSizeShift\<close>, the
  mask and the shift of \<^verbatim>\<open>peek\<close> give, for every 32-bit offset, the intra-seglet offset
  and the seglet index of the decomposition by modulo and division.
\<close>

theorem peek_bit_ops_refine_division:
  assumes "segletSizeShift s \<noteq> 0" and "is_log2 (segletSizeShift s) (segletSize s)"
  shows "peekLocate s offset = Inr (locateByDivision s offset)"
  unfolding locateByDivision_def using assms by (rule peekLocate_fast_path)

theorem peek_bit_ops_refine_division_witness:
  "segletSizeShift twoSeglets \<noteq> 0 \<and>
   is_log2 (segletSizeShift twoSeglets) (segletSize twoSeglets) \<and>
   peekLocate twoSeglets 20 = Inr (locateByDivision twoSeglets 20)"
proof -
  have h1: "segletSizeShift twoSeglets \<noteq> 0"
    by (simp add: twoSeglets_def)
  have h2: "is_log2 (segletSizeShift twoSeglets) (segletSize twoSeglets)"
    by (simp add: twoSeglets_def is_log2_def)
  show ?thesis
    using h1 h2 peek_bit_ops_refine_division [OF h1 h2, of 20] by simp
qed

section \<open>Properties of close and append\<close>

lemma store_apply:
  "store mem a bs x = (if a \<le> x \<and> x < a + length bs then bs ! (x - a) else mem x)"
proof (induction bs arbitrary: mem a)
  case Nil
  then show ?case
    by auto
next
  case (Cons b bs)
  have "store (mem(a := b)) (Suc a) bs x =
          (if Suc a \<le> x \<and> x < Suc a + length bs then bs ! (x - Suc a) else (mem(a := b)) x)"
    by (rule Cons.IH)
  then show ?case
    by (auto simp: nth_Cons')
qed

text \<open>
  Scenario S5 of the specification on the model: in a segment of 16 bytes a payload
  of 12 bytes is appended (14 bytes with header and length field), a second one is
  refused, and \<^verbatim>\<open>head\<close> stays at 14.
\<close>

lemma append_scenario_S5:
  "\<exists>s'. append crc oneBlock 2 (replicate 12 97) = Inr (True, Some 2, s') \<and>
     head s' = 14 \<and> entryCounts s' ! 2 = 1 \<and> entryLengths s' ! 2 = 12 \<and>
     memory s' 4096 = 2 \<and> memory s' 4097 = 12 \<and> memory s' 4098 = 97 \<and>
     append crc s' 2 (replicate 12 97) = Inr (False, None, s')"
  by (simp add: append_def oneBlock_def hasSpaceFor_def lengthFieldBytes_def
      EntryHeader_ctor_def downCast_u8_def Let_def store_apply)

lemma append_closed:
  "closed s \<Longrightarrow> append crc s type data = Inr (False, None, s)"
  by (simp add: append_def)

lemma appendSequence_closed:
  "closed s \<Longrightarrow> appendSequence crc s ops = Inr (map (\<lambda>_. (False, None)) ops, s)"
proof (induction ops)
  case Nil
  then show ?case
    by simp
next
  case (Cons op ops)
  then show ?case
    by (cases op) (simp add: append_closed)
qed

text \<open>
  C3. After \<^verbatim>\<open>close()\<close>, every append of any sequence of appends returns failure
  with no offset, and the segment after the sequence is the segment as \<^verbatim>\<open>close()\<close>
  left it: \<^verbatim>\<open>head\<close>, the checksum, both tallies and the bytes are those from before
  \<^verbatim>\<open>close()\<close>, and the segment is still closed.
\<close>

theorem append_after_close:
  "appendSequence crc (close s) ops = Inr (map (\<lambda>_. (False, None)) ops, close s) \<and>
   head (close s) = head s \<and> checksum (close s) = checksum s \<and>
   entryCounts (close s) = entryCounts s \<and> entryLengths (close s) = entryLengths s \<and>
   memory (close s) = memory s \<and> closed (close s)"
proof -
  have "closed (close s)"
    by (simp add: close_def)
  then show ?thesis
    by (simp add: appendSequence_closed) (simp add: close_def)
qed

end
